theory Spec2Isabelle
  imports Main
begin

section \<open>JavaScript values and syntax-tree nodes\<close>

text \<open>
  The utilities of \<^verbatim>\<open>src/unnamed/part_000\<close> read syntax-tree nodes as plain JavaScript
  objects: \<^verbatim>\<open>ASTNode.type\<close>, \<^verbatim>\<open>ASTNode.body\<close>, \<^verbatim>\<open>Object.keys(node)\<close>. A node is therefore
  modelled as a JavaScript value: an object is the list of its own properties in
  insertion order, a missing property reads as \<^verbatim>\<open>undefined\<close>. The \<^verbatim>\<open>parent\<close> back links
  that a linter adds to its nodes make the object graph cyclic; they are never read by
  the code modelled here and a node is modelled without them.
\<close>

datatype jsval =
    JUndefined
  | JNull
  | JBool bool
  | JNum int
  | JStr string
  | JArr "jsval list"
  | JObj "(string \<times> jsval) list"

text \<open>JavaScript truthiness, as tested by \<^verbatim>\<open>!candidate\<close> and \<^verbatim>\<open>ASTNode.expression\<close>.\<close>

fun truthy :: "jsval \<Rightarrow> bool" where
  "truthy JUndefined = False"
| "truthy JNull = False"
| "truthy (JBool b) = b"
| "truthy (JNum n) = (n \<noteq> 0)"
| "truthy (JStr s) = (s \<noteq> [])"
| "truthy (JArr xs) = True"
| "truthy (JObj ps) = True"

text \<open>
  Property read \<^verbatim>\<open>v.k\<close> on an object. The code only reads properties of nodes, which
  are objects; on the other values the read is modelled as \<^verbatim>\<open>undefined\<close>.
\<close>

fun field :: "jsval \<Rightarrow> string \<Rightarrow> jsval" where
  "field (JObj ps) k = (case map_of ps k of Some v \<Rightarrow> v | None \<Rightarrow> JUndefined)"
| "field v k = JUndefined"

text \<open>\<^verbatim>\<open>Object.keys(node)\<close> of an object: its own property names, in order.\<close>

fun object_keys :: "jsval \<Rightarrow> string list" where
  "object_keys (JObj ps) = map fst ps"
| "object_keys v = []"

section \<open>The tree walker behind \<^verbatim>\<open>traverse\<close>\<close>

text \<open>
  Modelled from the spec: \<^verbatim>\<open>estraverse.traverse\<close>, the library function that \<^verbatim>\<open>traverse\<close>
  hands its work to, is not part of the sources. The walker follows the
  specification's TreeWalker contract, read with the library's documented behaviour:
  \<^item> pre-order: \<^verbatim>\<open>enter\<close> is called on a node before its children are visited;
  \<^item> inside \<^verbatim>\<open>enter\<close> the visitor may call \<^verbatim>\<open>this.skip()\<close> (do not descend into the
    node's children, go on with what follows) or \<^verbatim>\<open>this.break()\<close> (end the whole
    traversal at once); the last call wins, so an \<^verbatim>\<open>enter\<close> is modelled as returning the
    control state it leaves behind;
  \<^item> the children of a node are read from the fields named by the key table entry of
    the node's type (the library's default table overridden by \<^verbatim>\<open>opts.keys\<close>), or by
    \<^verbatim>\<open>opts.fallback(node)\<close> when the type has no entry; a field holding a node
    contributes that node, a field holding an array contributes its node elements
    in order, anything else (a missing field too) contributes nothing;
  \<^item> a root that is falsy (\<^verbatim>\<open>undefined\<close>, \<^verbatim>\<open>null\<close>) is not visited at all.
  The library's default key table is not in the sources either: it is the parameter
  \<open>VisitorKeys\<close> of the model, and no result below depends on more of it than it says.
  The callbacks \<^verbatim>\<open>leave\<close> and the parent argument of \<^verbatim>\<open>enter\<close> are not used by the code
  modelled here and are left out.
\<close>

datatype control = Continue | Skip | Break

type_synonym key_table = "string \<rightharpoonup> string list"

text \<open>
  A visitor as the caller of \<^verbatim>\<open>traverse\<close> writes it (\<^verbatim>\<open>ESTraverse.Visitor\<close>): every
  property is optional. The type variable \<open>'s\<close> is the state the callbacks work on
  (JavaScript closures mutate what they captured; here the state is passed along).
\<close>

record 's visitor =
  enter :: "(jsval \<Rightarrow> 's \<Rightarrow> control \<times> 's) option"
  keys :: "key_table option"
  fallback :: "(jsval \<Rightarrow> string list) option"

text \<open>
  The options object \<^verbatim>\<open>opts\<close> that \<^verbatim>\<open>traverse\<close> builds: \<^verbatim>\<open>keys\<close> and \<^verbatim>\<open>fallback\<close> are
  always present in it.
\<close>

record 's options =
  opts_enter :: "(jsval \<Rightarrow> 's \<Rightarrow> control \<times> 's) option"
  opts_keys :: key_table
  opts_fallback :: "jsval \<Rightarrow> string list"

text \<open>\<^verbatim>\<open>node.type\<close> when it is a non-empty string.\<close>

definition node_type :: "jsval \<Rightarrow> string option" where
  "node_type v = (case field v ''type'' of
      JStr t \<Rightarrow> (if t = [] then None else Some t)
    | _ \<Rightarrow> None)"

text \<open>The library's \<^verbatim>\<open>isNode\<close>: an object whose \<^verbatim>\<open>type\<close> is a string.\<close>

definition isNode :: "jsval \<Rightarrow> bool" where
  "isNode v = (case v of
      JObj ps \<Rightarrow> (case field v ''type'' of JStr t \<Rightarrow> True | _ \<Rightarrow> False)
    | _ \<Rightarrow> False)"

definition candidates :: "key_table \<Rightarrow> 's options \<Rightarrow> jsval \<Rightarrow> string list" where
  "candidates VisitorKeys opts node =
     (case (case node_type node of
              None \<Rightarrow> None
            | Some t \<Rightarrow> (VisitorKeys ++ opts_keys opts) t) of
        Some cs \<Rightarrow> cs
      | None \<Rightarrow> opts_fallback opts node)"

text \<open>What one field of a node contributes to the work list.\<close>

definition field_children :: "jsval \<Rightarrow> jsval list" where
  "field_children candidate =
     (if \<not> truthy candidate then []
      else case candidate of
             JArr xs \<Rightarrow> filter (\<lambda>x. truthy x \<and> isNode x) xs
           | _ \<Rightarrow> (if isNode candidate then [candidate] else []))"

definition children :: "key_table \<Rightarrow> 's options \<Rightarrow> jsval \<Rightarrow> jsval list" where
  "children VisitorKeys opts node =
     concat (map (\<lambda>key. field_children (field node key)) (candidates VisitorKeys opts node))"

text \<open>
  Visiting a sequence (the children of one node, in order) until one visit breaks.
  The boolean says whether the traversal was broken.
\<close>

fun visit_all :: "('a \<Rightarrow> 's \<Rightarrow> bool \<times> 's) \<Rightarrow> 'a list \<Rightarrow> 's \<Rightarrow> bool \<times> 's" where
  "visit_all f [] s = (False, s)"
| "visit_all f (x # xs) s =
     (case f x s of
        (True, s') \<Rightarrow> (True, s')
      | (False, s') \<Rightarrow> visit_all f xs s')"

lemma visit_all_cong [fundef_cong]:
  assumes "xs = ys" and "s = t"
    and "\<And>x u. x \<in> set ys \<Longrightarrow> f x u = g x u"
  shows "visit_all f xs s = visit_all g ys t"
  unfolding assms(1,2) using assms(3)
  by (induction ys arbitrary: t) (auto split: prod.splits bool.splits)

lemma size_map_of:
  "map_of ps k = Some v \<Longrightarrow> size v < Suc (size_list (size_prod (\<lambda>_. 0) size) ps)"
  by (induction ps) (auto split: if_splits)

lemma size_field: "field node k = c \<Longrightarrow> c \<noteq> JUndefined \<Longrightarrow> size c < size node"
  by (cases node) (auto split: option.splits dest: size_map_of)

lemma size_elem: "x \<in> set xs \<Longrightarrow> size x \<le> size_list size xs"
  by (induction xs) auto

lemma size_field_children: "x \<in> set (field_children c) \<Longrightarrow> size x \<le> size c"
  by (cases c) (auto simp: field_children_def le_SucI split: if_splits dest!: size_elem)

lemma size_children: "x \<in> set (children VisitorKeys opts node) \<Longrightarrow> size x < size node"
proof -
  assume "x \<in> set (children VisitorKeys opts node)"
  then obtain key where x: "x \<in> set (field_children (field node key))"
    by (auto simp: children_def)
  then have "field node key \<noteq> JUndefined"
    by (auto simp: field_children_def)
  then have "size (field node key) < size node"
    by (rule size_field [OF refl])
  with size_field_children [OF x] show ?thesis by simp
qed

text \<open>
  Modelled from the spec: the walk of one node (the library's work list, as a
  recursion over the tree). The boolean says whether the traversal was broken.
\<close>

function walk :: "key_table \<Rightarrow> 's options \<Rightarrow> jsval \<Rightarrow> 's \<Rightarrow> bool \<times> 's" where
  "walk VisitorKeys opts node s =
     (case (case opts_enter opts of
              None \<Rightarrow> (Continue, s)
            | Some f \<Rightarrow> f node s) of
        (Break, s') \<Rightarrow> (True, s')
      | (Skip, s') \<Rightarrow> (False, s')
      | (Continue, s') \<Rightarrow>
          visit_all (walk VisitorKeys opts) (children VisitorKeys opts node) s')"
  by pat_completeness auto
termination
  by (relation "measure (\<lambda>(VisitorKeys, opts, node, s). size node)")
     (auto dest: size_children)

declare walk.simps [simp del]

text \<open>Modelled from the spec: \<^verbatim>\<open>estraverse.traverse(root, opts)\<close>.\<close>

definition estraverse_traverse :: "key_table \<Rightarrow> jsval \<Rightarrow> 's options \<Rightarrow> 's \<Rightarrow> 's" where
  "estraverse_traverse VisitorKeys root opts s =
     (if truthy root then snd (walk VisitorKeys opts root s) else s)"

section \<open>\<^verbatim>\<open>traverse\<close> and \<^verbatim>\<open>traverseReturns\<close> (\<^verbatim>\<open>src/unnamed/part_000\<close>)\<close>

text \<open>
  The default \<^verbatim>\<open>fallback\<close> of \<^verbatim>\<open>traverse\<close>:
  \<^verbatim>\<open>Object.keys(node).filter(key => key === 'children' || key === 'argument')\<close>.
\<close>

definition default_fallback :: "jsval \<Rightarrow> string list" where
  "default_fallback node =
     filter (\<lambda>key. key = ''children'' \<or> key = ''argument'') (object_keys node)"

text \<open>
  The options \<^verbatim>\<open>traverse\<close> hands to the walker. \<^verbatim>\<open>Object.assign({}, {fallback}, visitor)\<close>
  copies the visitor's own properties over the default \<^verbatim>\<open>fallback\<close>; then \<^verbatim>\<open>opts.keys\<close>
  is replaced by \<^verbatim>\<open>Object.assign({}, visitor.keys, {JSXElement: ['children'],
  JSXFragment: ['children']})\<close>: later sources overwrite earlier ones, which is \<open>++\<close>
  on maps, and an undefined \<^verbatim>\<open>visitor.keys\<close> contributes nothing.
\<close>

definition traverse_opts :: "'s visitor \<Rightarrow> 's options" where
  "traverse_opts visitor =
     \<lparr> opts_enter = enter visitor,
       opts_keys =
         (case keys visitor of None \<Rightarrow> Map.empty | Some ks \<Rightarrow> ks)
           ++ [''JSXElement'' \<mapsto> [''children''], ''JSXFragment'' \<mapsto> [''children'']],
       opts_fallback =
         (case fallback visitor of None \<Rightarrow> default_fallback | Some f \<Rightarrow> f) \<rparr>"

definition traverse :: "key_table \<Rightarrow> jsval \<Rightarrow> 's visitor \<Rightarrow> 's \<Rightarrow> 's" where
  "traverse VisitorKeys ASTnode visitor s =
     estraverse_traverse VisitorKeys ASTnode (traverse_opts visitor) s"

text \<open>
  The callback \<^verbatim>\<open>onReturn(returnValue, breakTraverse)\<close> works on the caller's state; the
  boolean it returns says whether it called \<^verbatim>\<open>breakTraverse\<close> (which does
  \<^verbatim>\<open>this.break()\<close> on the walker's controller).

  The visitor that \<^verbatim>\<open>traverseReturns\<close> passes to \<^verbatim>\<open>traverse\<close> is an object with the one
  property \<^verbatim>\<open>enter\<close> (lines 85 to 106). On a return statement \<^verbatim>\<open>this.skip()\<close> comes first
  and the callback second, so a \<^verbatim>\<open>this.break()\<close> of the callback is the state left behind.
\<close>

definition returns_enter ::
  "(jsval \<Rightarrow> 's \<Rightarrow> bool \<times> 's) \<Rightarrow> jsval \<Rightarrow> 's \<Rightarrow> control \<times> 's" where
  "returns_enter onReturn node s =
     (let t = field node ''type'' in
      if t = JStr ''ReturnStatement'' then
        (case onReturn (field node ''argument'') s of
           (stopped, s') \<Rightarrow> (if stopped then Break else Skip, s'))
      else if t = JStr ''BlockStatement''
           \<or> t = JStr ''IfStatement''
           \<or> t = JStr ''ForStatement''
           \<or> t = JStr ''WhileStatement''
           \<or> t = JStr ''SwitchStatement''
           \<or> t = JStr ''SwitchCase'' then (Continue, s)
      else (Skip, s))"

text \<open>
  \<^verbatim>\<open>traverseReturns(ASTNode, context, onReturn)\<close>. The parameter \<^verbatim>\<open>context\<close> is never read
  (its only use is inside a comment) and is left out. In the two direct cases the
  callback gets a no-op as \<^verbatim>\<open>breakTraverse\<close>, so what it reports about stopping is
  dropped. The function returns nothing: its result is the state the callbacks leave.
\<close>

definition returns_visitor :: "(jsval \<Rightarrow> 's \<Rightarrow> bool \<times> 's) \<Rightarrow> 's visitor" where
  "returns_visitor onReturn =
     \<lparr> enter = Some (returns_enter onReturn), keys = None, fallback = None \<rparr>"

definition traverseReturns ::
  "key_table \<Rightarrow> jsval \<Rightarrow> (jsval \<Rightarrow> 's \<Rightarrow> bool \<times> 's) \<Rightarrow> 's \<Rightarrow> 's" where
  "traverseReturns VisitorKeys ASTNode onReturn s =
     (let nodeType = field ASTNode ''type'' in
      if nodeType = JStr ''ReturnStatement'' then
        snd (onReturn (field ASTNode ''argument'') s)
      else if nodeType = JStr ''ArrowFunctionExpression''
              \<and> truthy (field ASTNode ''expression'') then
        snd (onReturn (field ASTNode ''body'') s)
      else if nodeType \<noteq> JStr ''FunctionExpression''
              \<and> nodeType \<noteq> JStr ''FunctionDeclaration''
              \<and> nodeType \<noteq> JStr ''ArrowFunctionExpression''
              \<and> nodeType \<noteq> JStr ''MethodDefinition'' then s
      else
        traverse VisitorKeys (field ASTNode ''body'') (returns_visitor onReturn) s)"

text \<open>
  Observing the calls: a callback that appends the argument it receives, and whether
  it asked to stop, to a log kept beside the caller's own state.
\<close>

definition logged ::
  "(jsval \<Rightarrow> 's \<Rightarrow> bool \<times> 's) \<Rightarrow> jsval \<Rightarrow> 's \<times> (jsval \<times> bool) list
     \<Rightarrow> bool \<times> ('s \<times> (jsval \<times> bool) list)" where
  "logged onReturn a st =
     (case onReturn a (fst st) of
        (stopped, s') \<Rightarrow> (stopped, (s', snd st @ [(a, stopped)])))"

definition calls ::
  "key_table \<Rightarrow> jsval \<Rightarrow> (jsval \<Rightarrow> 's \<Rightarrow> bool \<times> 's) \<Rightarrow> 's \<Rightarrow> (jsval \<times> bool) list" where
  "calls VisitorKeys ASTNode onReturn s =
     snd (traverseReturns VisitorKeys ASTNode (logged onReturn) (s, []))"


definition stop_at_once :: "jsval \<Rightarrow> unit \<Rightarrow> bool \<times> unit" where
  "stop_at_once a u = (True, ())"

section \<open>Tokens and the token cursor\<close>

text \<open>
  Tokens and nodes carry a range (start and end offset in the source text) and a
  location (start and end line and column), as the parser delivers them.
\<close>

record position =
  line :: nat
  column :: nat

record source_location =
  loc_start :: position
  loc_end :: position

record token =
  tok_type :: string
  tok_value :: string
  tok_range :: "nat \<times> nat"
  tok_loc :: source_location

record syntax_node =
  node_range :: "nat \<times> nat"
  node_loc :: source_location

text \<open>
  Modelled from the spec: \<^verbatim>\<open>sourceCode.getTokenBefore\<close> belongs to the linter host, not to
  the sources. The specification's TokenCursor gives its contract: the nearest
  preceding token, or null if the node is stream-first. The source code is the list of
  its tokens in source order; the token before a node or token (given by its range) is
  the last token that starts before it.
\<close>

definition getTokenBefore :: "token list \<Rightarrow> nat \<times> nat \<Rightarrow> token option" where
  "getTokenBefore tokens r =
     (case filter (\<lambda>t. fst (tok_range t) < fst r) tokens of
        [] \<Rightarrow> None
      | ts \<Rightarrow> Some (last ts))"

text \<open>
  Modelled from the spec: \<^verbatim>\<open>isTokenOnSameLine\<close> is imported from the repository's
  \<^verbatim>\<open>utils/ast-utils\<close>, which is not in the sources. The specification: true iff \<^verbatim>\<open>a\<close>'s
  end line equals \<^verbatim>\<open>b\<close>'s start line.
\<close>

definition isTokenOnSameLine :: "source_location \<Rightarrow> source_location \<Rightarrow> bool" where
  "isTokenOnSameLine left right = (line (loc_end left) = line (loc_start right))"

text \<open>
  Modelled from the spec: \<^verbatim>\<open>isDecimalIntegerNumericToken\<close> is imported from the same
  missing module. The specification calls its argument a bare decimal-integer numeric
  literal (such as \<^verbatim>\<open>1\<close>), without decimal point or exponent, and treats the forms it
  does not list (hex, octal, bigint) as not being one: a numeric token whose text is
  \<^verbatim>\<open>0\<close> or a run of digits that does not start with \<^verbatim>\<open>0\<close>.
\<close>

definition is_digit :: "char \<Rightarrow> bool" where
  "is_digit c = (c \<in> set ''0123456789'')"

definition isDecimalIntegerNumericToken :: "token \<Rightarrow> bool" where
  "isDecimalIntegerNumericToken t =
     (tok_type t = ''Numeric''
      \<and> tok_value t \<noteq> []
      \<and> list_all is_digit (tok_value t)
      \<and> (tok_value t = ''0'' \<or> hd (tok_value t) \<noteq> CHR ''0''))"

section \<open>\<^verbatim>\<open>getFirstNodeInLine\<close> and \<^verbatim>\<open>isNodeFirstInLine\<close> (\<^verbatim>\<open>src/unnamed/part_000\<close>)\<close>

datatype error = TypeError

text \<open>
  \<^verbatim>\<open>lines[lines.length - 1]\<close> of \<^verbatim>\<open>token.value.split('\n')\<close>: the text after the last line
  feed. \<^verbatim>\<open>/^\s*$/\<close> on it: only white space (here: the white space of ASCII).
\<close>

definition last_line :: "string \<Rightarrow> string" where
  "last_line v = rev (takeWhile (\<lambda>c. c \<noteq> CHR 0x0A) (rev v))"

definition is_space :: "char \<Rightarrow> bool" where
  "is_space c = (c \<in> {CHR 0x09, CHR 0x0A, CHR 0x0B, CHR 0x0C, CHR 0x0D, CHR '' ''})"

definition blank :: "string \<Rightarrow> bool" where
  "blank v = list_all is_space v"

lemma getTokenBefore_less:
  "getTokenBefore tokens r = Some t \<Longrightarrow> fst (tok_range t) < fst r"
proof -
  assume a: "getTokenBefore tokens r = Some t"
  let ?ts = "filter (\<lambda>t. fst (tok_range t) < fst r) tokens"
  from a have "?ts \<noteq> []" and "t = last ?ts"
    by (auto simp: getTokenBefore_def split: list.splits)
  then have "t \<in> set ?ts"
    by (metis last_in_set)
  then show ?thesis by simp
qed

text \<open>
  The \<^verbatim>\<open>do ... while\<close> loop of \<^verbatim>\<open>getFirstNodeInLine\<close>, one call per iteration. The body
  reads \<^verbatim>\<open>token.type\<close> right after \<^verbatim>\<open>token = sourceCode.getTokenBefore(token)!\<close>; the
  \<^verbatim>\<open>!\<close> is erased at compile time, so on \<^verbatim>\<open>null\<close> the read raises a \<^verbatim>\<open>TypeError\<close>.
  The node or token the walk stands on is given by its range.
\<close>

function getFirstNodeInLine :: "token list \<Rightarrow> nat \<times> nat \<Rightarrow> error + token" where
  "getFirstNodeInLine tokens r =
     (case getTokenBefore tokens r of
        None \<Rightarrow> Inl TypeError
      | Some token \<Rightarrow>
          if tok_type token = ''JSXText'' \<and> blank (last_line (tok_value token))
          then getFirstNodeInLine tokens (tok_range token)
          else Inr token)"
  by pat_completeness auto
termination
  by (relation "measure (\<lambda>(tokens, r). fst r)") (auto dest: getTokenBefore_less)

declare getFirstNodeInLine.simps [simp del]

text \<open>
  \<^verbatim>\<open>isNodeFirstInLine\<close>: the token that \<^verbatim>\<open>getFirstNodeInLine\<close> returns is an object, so
  \<^verbatim>\<open>token ? token.loc.end.line : -1\<close> takes its first branch.
\<close>

definition isNodeFirstInLine :: "token list \<Rightarrow> syntax_node \<Rightarrow> error + bool" where
  "isNodeFirstInLine tokens node =
     (case getFirstNodeInLine tokens (node_range node) of
        Inl e \<Rightarrow> Inl e
      | Inr token \<Rightarrow>
          (let startLine = line (loc_start (node_loc node));
               endLine = line (loc_end (tok_loc token))
           in Inr (startLine \<noteq> endLine)))"

section \<open>The rule \<^verbatim>\<open>dot-location\<close> (\<^verbatim>\<open>dot-location.ts\<close>)\<close>

text \<open>
  What the rule reads of a \<^verbatim>\<open>MemberExpression\<close> node: its type tag, whether it is
  computed, and its property.
\<close>

record member_expression =
  me_type :: string
  computed :: bool
  property :: syntax_node

text \<open>
  The calls the fix generators make on the fixer; a token or node is passed to the
  fixer for its range.
\<close>

datatype fix_op =
    InsertTextAfter "nat \<times> nat" string
  | InsertTextBefore "nat \<times> nat" string
  | Remove "nat \<times> nat"

text \<open>The descriptor passed to \<^verbatim>\<open>context.report\<close>; \<open>rep_fix\<close> holds what the generator \<^verbatim>\<open>fix\<close> yields.\<close>

record report =
  rep_node :: member_expression
  rep_loc :: source_location
  messageId :: string
  rep_fix :: "fix_op list"

text \<open>The rule context: the options array and the source code (its tokens).\<close>

record rule_context =
  options :: "string list"
  sourceCode :: "token list"

text \<open>
  \<^verbatim>\<open>const config = context.options[0]\<close> and
  \<^verbatim>\<open>const onObject = config === 'object' || !config\<close>: a missing option is
  \<^verbatim>\<open>undefined\<close>, and the empty string is falsy too.
\<close>

definition onObject :: "rule_context \<Rightarrow> bool" where
  "onObject ctx =
     (case options ctx of
        [] \<Rightarrow> True
      | config # rest \<Rightarrow> config = ''object'' \<or> config = [])"

text \<open>
  \<^verbatim>\<open>checkDotLocation\<close>. The reports of one call are its result. When there is no dot
  token, the first condition \<^verbatim>\<open>onObject && dotToken\<close> fails and the second,
  \<^verbatim>\<open>!isTokenOnSameLine(dotToken, property) && dotToken\<close>, ends in the falsy \<^verbatim>\<open>dotToken\<close>:
  nothing is reported.
\<close>

definition checkDotLocation :: "rule_context \<Rightarrow> member_expression \<Rightarrow> report list" where
  "checkDotLocation ctx node =
     (case getTokenBefore (sourceCode ctx) (node_range (property node)) of
        None \<Rightarrow> []
      | Some dotToken \<Rightarrow>
          if onObject ctx then
            (case getTokenBefore (sourceCode ctx) (tok_range dotToken) of
               None \<Rightarrow> []
             | Some tokenBeforeDot \<Rightarrow>
                 if \<not> isTokenOnSameLine (tok_loc tokenBeforeDot) (tok_loc dotToken) then
                   [\<lparr> rep_node = node, rep_loc = tok_loc dotToken,
                      messageId = ''expectedDotAfterObject'',
                      rep_fix =
                        [if take 1 (tok_value dotToken) = ''.''
                            \<and> isDecimalIntegerNumericToken tokenBeforeDot
                         then InsertTextAfter (tok_range tokenBeforeDot)
                                ('' '' @ tok_value dotToken)
                         else InsertTextAfter (tok_range tokenBeforeDot) (tok_value dotToken),
                         Remove (tok_range dotToken)] \<rparr>]
                 else [])
          else if \<not> isTokenOnSameLine (tok_loc dotToken) (node_loc (property node)) then
            [\<lparr> rep_node = node, rep_loc = tok_loc dotToken,
               messageId = ''expectedDotBeforeProperty'',
               rep_fix =
                 [Remove (tok_range dotToken),
                  InsertTextBefore (node_range (property node)) (tok_value dotToken)] \<rparr>]
          else [])"

text \<open>\<^verbatim>\<open>checkNode\<close>, the listener \<^verbatim>\<open>create\<close> registers for \<^verbatim>\<open>MemberExpression\<close>.\<close>

definition checkNode :: "rule_context \<Rightarrow> member_expression \<Rightarrow> report list" where
  "checkNode ctx node =
     (if me_type node = ''MemberExpression'' \<and> \<not> computed node
      then checkDotLocation ctx node
      else [])"

text \<open>
  Modelled from the spec: applying a fix is the work of the linter host. The
  specification's Edit is a text mutation, insert text at an offset or remove a range,
  and all offsets refer to the text the rule has seen. \<^verbatim>\<open>insertTextAfter\<close> inserts at the
  end of the target's range, \<^verbatim>\<open>insertTextBefore\<close> at its start. The edits of one fix
  do not overlap; they are applied from the last offset to the first, so that the
  offsets of the edits still to come stay valid.
\<close>

fun edit_of :: "fix_op \<Rightarrow> nat \<times> nat \<times> string" where
  "edit_of (InsertTextAfter r text) = (snd r, snd r, text)"
| "edit_of (InsertTextBefore r text) = (fst r, fst r, text)"
| "edit_of (Remove r) = (fst r, snd r, [])"

fun apply_edit :: "nat \<times> nat \<times> string \<Rightarrow> string \<Rightarrow> string" where
  "apply_edit (a, b, text) source = take a source @ text @ drop b source"

definition apply_fix :: "fix_op list \<Rightarrow> string \<Rightarrow> string" where
  "apply_fix ops source = fold apply_edit (rev (sort_key fst (map edit_of ops))) source"

text \<open>
  What a report says of the violation (message and location), and the source texts that
  the fixes of the reports of one node produce.
\<close>

definition report_heads :: "report list \<Rightarrow> (string \<times> source_location) list" where
  "report_heads rs = map (\<lambda>r. (messageId r, rep_loc r)) rs"

definition fixed_texts :: "rule_context \<Rightarrow> member_expression \<Rightarrow> string \<Rightarrow> string list" where
  "fixed_texts ctx node source = map (\<lambda>r. apply_fix (rep_fix r) source) (checkNode ctx node)"

section \<open>The return statements of a function body, by structure\<close>

text \<open>
  To say which return statements a walk should report, the statements that
  \<^verbatim>\<open>traverseReturns\<close> looks into are given a syntax of their own, with the fields the
  ESTree format gives them. Every other node (an expression statement, a declaration,
  a nested function, a \<^verbatim>\<open>try\<close> statement, an absent \<^verbatim>\<open>alternate\<close>, ...) is an \<open>OtherNode\<close>.
  The last argument of a constructor holds the properties of the node that the
  walk does not read (\<^verbatim>\<open>range\<close>, \<^verbatim>\<open>loc\<close>, ...).
\<close>

type_synonym extras = "(string \<times> jsval) list"

datatype statement =
    ReturnStatement jsval extras
  | BlockStatement "statement list" extras
  | IfStatement jsval statement statement extras
  | ForStatement jsval jsval jsval statement extras
  | WhileStatement jsval statement extras
  | SwitchStatement jsval "statement list" extras
  | SwitchCase jsval "statement list" extras
  | OtherNode jsval

text \<open>The node object of a statement.\<close>

fun node_of :: "statement \<Rightarrow> jsval" where
  "node_of (ReturnStatement argument x) =
     JObj ((''type'', JStr ''ReturnStatement'') # (''argument'', argument) # x)"
| "node_of (BlockStatement body x) =
     JObj ((''type'', JStr ''BlockStatement'') # (''body'', JArr (map node_of body)) # x)"
| "node_of (IfStatement test consequent alternate x) =
     JObj ((''type'', JStr ''IfStatement'') # (''test'', test)
           # (''consequent'', node_of consequent) # (''alternate'', node_of alternate) # x)"
| "node_of (ForStatement init test update body x) =
     JObj ((''type'', JStr ''ForStatement'') # (''init'', init) # (''test'', test)
           # (''update'', update) # (''body'', node_of body) # x)"
| "node_of (WhileStatement test body x) =
     JObj ((''type'', JStr ''WhileStatement'') # (''test'', test)
           # (''body'', node_of body) # x)"
| "node_of (SwitchStatement discriminant cases x) =
     JObj ((''type'', JStr ''SwitchStatement'') # (''discriminant'', discriminant)
           # (''cases'', JArr (map node_of cases)) # x)"
| "node_of (SwitchCase test consequent x) =
     JObj ((''type'', JStr ''SwitchCase'') # (''test'', test)
           # (''consequent'', JArr (map node_of consequent)) # x)"
| "node_of (OtherNode v) = v"






text \<open>
  The reading of the claim "every return statement reachable in the body without
  crossing into a nested function or method definition": all return statements
  anywhere below a value, except below a function or method node, in the order of the
  properties.
\<close>

definition function_types :: "string list" where
  "function_types =
     [''FunctionDeclaration'', ''FunctionExpression'', ''ArrowFunctionExpression'',
      ''MethodDefinition'']"

lemma size_snd_elem:
  "p \<in> set ps \<Longrightarrow> size (snd p) < Suc (size_list (size_prod (\<lambda>_. 0) size) ps)"
  by (induction ps) auto

function returns_outside_functions :: "jsval \<Rightarrow> jsval list" where
  "returns_outside_functions (JObj ps) =
     (if field (JObj ps) ''type'' = JStr ''ReturnStatement'' then [JObj ps]
      else if field (JObj ps) ''type'' \<in> set (map JStr function_types) then []
      else concat (map (\<lambda>p. returns_outside_functions (snd p)) ps))"
| "returns_outside_functions (JArr xs) = concat (map returns_outside_functions xs)"
| "returns_outside_functions JUndefined = []"
| "returns_outside_functions JNull = []"
| "returns_outside_functions (JBool b) = []"
| "returns_outside_functions (JNum n) = []"
| "returns_outside_functions (JStr t) = []"
  by pat_completeness auto
termination
  by (relation "measure size") (auto dest: size_snd_elem size_elem simp: less_Suc_eq_le)

text \<open>The arguments of a list of return statements.\<close>

definition arguments :: "jsval list \<Rightarrow> jsval list" where
  "arguments rs = map (\<lambda>r. field r ''argument'') rs"




text \<open>
  Two properties of a log of calls: no call asked to stop; and, for a walk that ended
  broken (\<open>b\<close>) or not, only the last call asked to stop, and it did so exactly when the
  walk ended broken.
\<close>

definition unstopped :: "(jsval \<times> bool) list \<Rightarrow> bool" where
  "unstopped log = list_all (\<lambda>e. \<not> snd e) log"

definition stopped_last :: "bool \<Rightarrow> (jsval \<times> bool) list \<Rightarrow> bool" where
  "stopped_last b log =
     (if b then log \<noteq> [] \<and> snd (last log) \<and> unstopped (butlast log) else unstopped log)"

section \<open>Example programs\<close>

text \<open>
  The part of the key table of \<^verbatim>\<open>estraverse\<close> that concerns statements and functions.
\<close>

definition estraverse_keys :: key_table where
  "estraverse_keys = map_of
     [(''BlockStatement'', [''body'']),
      (''CatchClause'', [''param'', ''body'']),
      (''DoWhileStatement'', [''body'', ''test'']),
      (''ExpressionStatement'', [''expression'']),
      (''ForStatement'', [''init'', ''test'', ''update'', ''body'']),
      (''ForInStatement'', [''left'', ''right'', ''body'']),
      (''ForOfStatement'', [''left'', ''right'', ''body'']),
      (''FunctionDeclaration'', [''id'', ''params'', ''body'']),
      (''FunctionExpression'', [''id'', ''params'', ''body'']),
      (''IfStatement'', [''test'', ''consequent'', ''alternate'']),
      (''MethodDefinition'', [''key'', ''value'']),
      (''ReturnStatement'', [''argument'']),
      (''SwitchStatement'', [''discriminant'', ''cases'']),
      (''SwitchCase'', [''test'', ''consequent'']),
      (''TryStatement'', [''block'', ''handler'', ''finalizer'']),
      (''WhileStatement'', [''test'', ''body''])]"

definition lit :: "int \<Rightarrow> jsval" where
  "lit n = JObj [(''type'', JStr ''Literal''), (''value'', JNum n)]"

definition ident :: "string \<Rightarrow> jsval" where
  "ident name = JObj [(''type'', JStr ''Identifier''), (''name'', JStr name)]"

definition function_declaration :: "string \<Rightarrow> jsval list \<Rightarrow> statement \<Rightarrow> jsval" where
  "function_declaration name params body =
     JObj [(''type'', JStr ''FunctionDeclaration''), (''id'', ident name),
           (''params'', JArr params), (''body'', node_of body)]"

text \<open>\<^verbatim>\<open>function f(x) { if (x) return 1; return 2; }\<close>\<close>

definition body_if :: statement where
  "body_if =
     BlockStatement
       [IfStatement (ident ''x'') (ReturnStatement (lit 1) []) (OtherNode JNull) [],
        ReturnStatement (lit 2) []] []"

definition f_if :: jsval where
  "f_if = function_declaration ''f'' [ident ''x''] body_if"





text \<open>\<^verbatim>\<open>function f(c) { do { return 1; } while (c); }\<close>\<close>

definition do_while_statement :: jsval where
  "do_while_statement =
     JObj [(''type'', JStr ''DoWhileStatement''),
           (''body'', node_of (BlockStatement [ReturnStatement (lit 1) []] [])),
           (''test'', ident ''c'')]"

definition f_do_while :: jsval where
  "f_do_while =
     function_declaration ''f'' [ident ''c''] (BlockStatement [OtherNode do_while_statement] [])"

text \<open>\<^verbatim>\<open>function f(xs) { for (const x of xs) { return x; } }\<close>\<close>

definition for_of_statement :: jsval where
  "for_of_statement =
     JObj [(''type'', JStr ''ForOfStatement''),
           (''left'',
              JObj [(''type'', JStr ''VariableDeclaration''), (''kind'', JStr ''const''),
                    (''declarations'',
                       JArr [JObj [(''type'', JStr ''VariableDeclarator''),
                                   (''id'', ident ''x''), (''init'', JNull)]])]),
           (''right'', ident ''xs''),
           (''body'', node_of (BlockStatement [ReturnStatement (ident ''x'') []] []))]"

definition f_for_of :: jsval where
  "f_for_of =
     function_declaration ''f'' [ident ''xs''] (BlockStatement [OtherNode for_of_statement] [])"

text \<open>
  The \<^verbatim>\<open>MethodDefinition\<close> node of \<^verbatim>\<open>m\<close> in \<^verbatim>\<open>class A { m() { return 1; } }\<close>: the function
  of a method is its \<^verbatim>\<open>value\<close>; a method definition has no property \<^verbatim>\<open>body\<close>.
\<close>

definition method_m :: jsval where
  "method_m =
     JObj [(''type'', JStr ''MethodDefinition''),
           (''key'', ident ''m''),
           (''value'',
              JObj [(''type'', JStr ''FunctionExpression''), (''id'', JNull),
                    (''params'', JArr []),
                    (''body'', node_of (BlockStatement [ReturnStatement (lit 1) []] []))]),
           (''kind'', JStr ''method''),
           (''computed'', JBool False),
           (''static'', JBool False)]"

text \<open>A visitor with a key table of its own.\<close>

definition keyed_visitor :: "unit visitor" where
  "keyed_visitor =
     \<lparr> enter = None,
       keys = Some [''JSXElement'' \<mapsto> [''openingElement''], ''Program'' \<mapsto> [''body'']],
       fallback = None \<rparr>"

text \<open>
  Source texts with their tokens. A token on one line is given by its type, its text,
  its offset, its line and its column; a member expression by whether it is computed
  and the offset, length, line and column of its property.
\<close>

definition on_line :: "nat \<Rightarrow> nat \<Rightarrow> nat \<Rightarrow> source_location" where
  "on_line ln c1 c2 =
     \<lparr> loc_start = \<lparr> line = ln, column = c1 \<rparr>, loc_end = \<lparr> line = ln, column = c2 \<rparr> \<rparr>"

definition mk_token :: "string \<Rightarrow> string \<Rightarrow> nat \<Rightarrow> nat \<Rightarrow> nat \<Rightarrow> token" where
  "mk_token ty v offset ln col =
     \<lparr> tok_type = ty, tok_value = v, tok_range = (offset, offset + length v),
       tok_loc = on_line ln col (col + length v) \<rparr>"

definition member_at :: "bool \<Rightarrow> nat \<Rightarrow> nat \<Rightarrow> nat \<Rightarrow> nat \<Rightarrow> member_expression" where
  "member_at cmp offset len ln col =
     \<lparr> me_type = ''MemberExpression'', computed = cmp,
       property = \<lparr> node_range = (offset, offset + len),
                    node_loc = on_line ln col (col + len) \<rparr> \<rparr>"

definition rule_with :: "string list \<Rightarrow> token list \<Rightarrow> rule_context" where
  "rule_with opts tokens = \<lparr> options = opts, sourceCode = tokens \<rparr>"

definition newline :: string where
  "newline = [CHR 0x0A]"

text \<open>\<^verbatim>\<open>foo\<close>, line break, \<^verbatim>\<open>.bar()\<close>\<close>

definition source_foo_dot_bar :: string where
  "source_foo_dot_bar = ''foo'' @ newline @ ''.bar()''"

definition tokens_foo_dot_bar :: "token list" where
  "tokens_foo_dot_bar =
     [mk_token ''Identifier'' ''foo'' 0 1 0, mk_token ''Punctuator'' ''.'' 4 2 0,
      mk_token ''Identifier'' ''bar'' 5 2 1, mk_token ''Punctuator'' ''('' 8 2 4,
      mk_token ''Punctuator'' '')'' 9 2 5]"

definition member_foo_dot_bar :: member_expression where
  "member_foo_dot_bar = member_at False 5 3 2 1"

text \<open>\<^verbatim>\<open>foo.\<close>, line break, \<^verbatim>\<open>bar()\<close>\<close>

definition source_foo_bar :: string where
  "source_foo_bar = ''foo.'' @ newline @ ''bar()''"

definition tokens_foo_bar :: "token list" where
  "tokens_foo_bar =
     [mk_token ''Identifier'' ''foo'' 0 1 0, mk_token ''Punctuator'' ''.'' 3 1 3,
      mk_token ''Identifier'' ''bar'' 5 2 0, mk_token ''Punctuator'' ''('' 8 2 3,
      mk_token ''Punctuator'' '')'' 9 2 4]"

definition member_foo_bar :: member_expression where
  "member_foo_bar = member_at False 5 3 2 0"







text \<open>\<^verbatim>\<open>obj\<close>, line break, \<^verbatim>\<open>[prop]\<close>\<close>

definition tokens_computed :: "token list" where
  "tokens_computed =
     [mk_token ''Identifier'' ''obj'' 0 1 0, mk_token ''Punctuator'' ''['' 4 2 0,
      mk_token ''Identifier'' ''prop'' 5 2 1, mk_token ''Punctuator'' '']'' 9 2 5]"

definition member_computed :: member_expression where
  "member_computed = member_at True 5 4 2 1"

text \<open>A file that holds \<^verbatim>\<open><a/>\<close> and nothing else, and its \<^verbatim>\<open>JSXElement\<close> node.\<close>

definition tokens_jsx :: "token list" where
  "tokens_jsx =
     [mk_token ''Punctuator'' ''<'' 0 1 0, mk_token ''JSXIdentifier'' ''a'' 1 1 1,
      mk_token ''Punctuator'' ''/'' 2 1 2, mk_token ''Punctuator'' ''>'' 3 1 3]"

definition jsx_element :: syntax_node where
  "jsx_element = \<lparr> node_range = (0, 4), node_loc = on_line 1 0 4 \<rparr>"

section \<open>Properties of \<^verbatim>\<open>traverse\<close> and \<^verbatim>\<open>traverseReturns\<close>\<close>

subsection \<open>The walk of a well-formed statement\<close>








lemma opts_enter_returns [simp]:
  "opts_enter (traverse_opts (returns_visitor onReturn)) = Some (returns_enter onReturn)"
  by (simp add: traverse_opts_def returns_visitor_def)











text \<open>In a plain statement the structural list is the list of all returns outside functions.\<close>

lemma arguments_append [simp]: "arguments (xs @ ys) = arguments xs @ arguments ys"
  by (simp add: arguments_def)

lemma arguments_Nil [simp]: "arguments [] = []"
  by (simp add: arguments_def)

lemma arguments_concat: "arguments (concat xss) = concat (map arguments xss)"
  by (induction xss) simp_all




subsection \<open>Which return statements are reported\<close>




subsection \<open>Stopping the walk\<close>

lemma visit_all_stopped_last:
  "(\<And>x u b u'. x \<in> set xs \<Longrightarrow> unstopped (snd u) \<Longrightarrow> f x u = (b, u')
        \<Longrightarrow> stopped_last b (snd u'))
   \<Longrightarrow> unstopped (snd u) \<Longrightarrow> visit_all f xs u = (b, u') \<Longrightarrow> stopped_last b (snd u')"
proof (induction xs arbitrary: u)
  case Nil
  then show ?case by (auto simp: stopped_last_def)
next
  case (Cons x xs)
  obtain c v where fx: "f x u = (c, v)" by (cases "f x u")
  have sl: "stopped_last c (snd v)"
    by (rule Cons.prems(1) [OF _ Cons.prems(2) fx]) simp
  show ?case
  proof (cases c)
    case True
    with fx Cons.prems(3) sl show ?thesis by auto
  next
    case False
    with fx Cons.prems(3) have r: "visit_all f xs v = (b, u')" by simp
    from False sl have un: "unstopped (snd v)" by (simp add: stopped_last_def)
    show ?thesis
    proof (rule Cons.IH [OF _ un r])
      fix y w d w'
      assume "y \<in> set xs" "unstopped (snd w)" "f y w = (d, w')"
      then show "stopped_last d (snd w')"
        using Cons.prems(1) [of y w d w'] by simp
    qed
  qed
qed

lemma walk_stopped_last:
  assumes "opts_enter opts = Some (returns_enter (logged onReturn))"
  shows "unstopped (snd u) \<Longrightarrow> walk VisitorKeys opts v u = (b, u')
           \<Longrightarrow> stopped_last b (snd u')"
  using assms
proof (induction VisitorKeys opts v u arbitrary: b u' rule: walk.induct)
  case (1 VisitorKeys opts node s)
  obtain c s' where e: "returns_enter (logged onReturn) node s = (c, s')"
    by (cases "returns_enter (logged onReturn) node s")
  show ?case
  proof (cases c)
    case Continue
    with e have "s' = s"
      by (auto simp: returns_enter_def Let_def split: if_splits prod.splits)
    have eq: "(Continue, s)
        = (case opts_enter opts of None \<Rightarrow> (Continue, s) | Some f \<Rightarrow> f node s)"
      using e Continue \<open>s' = s\<close> by (simp add: "1.prems"(3))
    have r: "visit_all (walk VisitorKeys opts) (children VisitorKeys opts node) s = (b, u')"
      using "1.prems"(2) e Continue \<open>s' = s\<close>
      by (simp add: walk.simps [of _ _ node] "1.prems"(3))
    show ?thesis
    proof (rule visit_all_stopped_last [OF _ "1.prems"(1) r])
      fix x u c v
      assume "x \<in> set (children VisitorKeys opts node)" "unstopped (snd u)"
        "walk VisitorKeys opts x u = (c, v)"
      then show "stopped_last c (snd v)"
        using "1.IH" [OF eq refl] "1.prems"(3) by blast
    qed
  next
    case Skip
    with e "1.prems" have "b = False" "u' = s'"
      by (simp_all add: walk.simps [of _ _ node])
    moreover have "unstopped (snd s')"
      using e Skip "1.prems"(1)
      by (auto simp: returns_enter_def Let_def logged_def unstopped_def
          split: if_splits prod.splits)
    ultimately show ?thesis by (simp add: stopped_last_def)
  next
    case Break
    with e "1.prems" have "b = True" "u' = s'"
      by (simp_all add: walk.simps [of _ _ node])
    moreover have "snd s' \<noteq> [] \<and> snd (last (snd s')) \<and> unstopped (butlast (snd s'))"
      using e Break "1.prems"(1)
      by (auto simp: returns_enter_def Let_def logged_def unstopped_def
          split: if_splits prod.splits)
    ultimately show ?thesis by (simp add: stopped_last_def)
  qed
qed

lemma stopped_last_end:
  assumes "stopped_last b log" and "log = before @ (a, True) # after"
  shows "after = []"
proof (rule ccontr)
  assume "after \<noteq> []"
  then have bl: "butlast log = before @ (a, True) # butlast after"
    using assms(2) by (simp add: butlast_append)
  show False
  proof (cases b)
    case True
    with assms(1) have "unstopped (butlast log)" by (simp add: stopped_last_def)
    then show False by (simp add: bl unstopped_def)
  next
    case False
    with assms(1) have "unstopped log" by (simp add: stopped_last_def)
    then show False by (simp add: assms(2) unstopped_def)
  qed
qed

lemma calls_stopped_last:
  "\<exists>b. stopped_last b (calls VisitorKeys fn onReturn s)"
proof -
  let ?t = "field fn ''type''"
  consider (direct) "?t = JStr ''ReturnStatement''
        \<or> (?t = JStr ''ArrowFunctionExpression'' \<and> truthy (field fn ''expression''))"
    | (none) "?t \<noteq> JStr ''ReturnStatement''"
        "\<not> (?t = JStr ''ArrowFunctionExpression'' \<and> truthy (field fn ''expression''))"
        "?t \<noteq> JStr ''FunctionExpression'' \<and> ?t \<noteq> JStr ''FunctionDeclaration''
          \<and> ?t \<noteq> JStr ''ArrowFunctionExpression'' \<and> ?t \<noteq> JStr ''MethodDefinition''"
    | (walk) "?t \<noteq> JStr ''ReturnStatement''"
        "\<not> (?t = JStr ''ArrowFunctionExpression'' \<and> truthy (field fn ''expression''))"
        "\<not> (?t \<noteq> JStr ''FunctionExpression'' \<and> ?t \<noteq> JStr ''FunctionDeclaration''
          \<and> ?t \<noteq> JStr ''ArrowFunctionExpression'' \<and> ?t \<noteq> JStr ''MethodDefinition'')"
    by blast
  then show ?thesis
  proof cases
    case direct
    have "snd (snd (logged onReturn x (s, []))) = [(x, fst (onReturn x s))]" for x
      by (simp add: logged_def split: prod.splits)
    with direct have "\<exists>v. calls VisitorKeys fn onReturn s = [v]"
      by (auto simp: calls_def traverseReturns_def Let_def)
    then obtain v where "calls VisitorKeys fn onReturn s = [v]" ..
    then have "stopped_last (snd v) (calls VisitorKeys fn onReturn s)"
      by (simp add: stopped_last_def unstopped_def)
    then show ?thesis ..
  next
    case none
    then have "calls VisitorKeys fn onReturn s = []"
      by (simp add: calls_def traverseReturns_def Let_def)
    then have "stopped_last False (calls VisitorKeys fn onReturn s)"
      by (simp add: stopped_last_def unstopped_def)
    then show ?thesis ..
  next
    case walk
    let ?root = "field fn ''body''"
    let ?opts = "traverse_opts (returns_visitor (logged onReturn))"
    show ?thesis
    proof (cases "truthy ?root")
      case False
      with walk have "calls VisitorKeys fn onReturn s = []"
        by (auto simp: calls_def traverseReturns_def Let_def traverse_def estraverse_traverse_def)
      then have "stopped_last False (calls VisitorKeys fn onReturn s)"
        by (simp add: stopped_last_def unstopped_def)
      then show ?thesis ..
    next
      case True
      obtain b u' where r: "walk VisitorKeys ?opts ?root (s, []) = (b, u')"
        by (cases "walk VisitorKeys ?opts ?root (s, [])")
      with walk True have c: "calls VisitorKeys fn onReturn s = snd u'"
        by (auto simp: calls_def traverseReturns_def Let_def traverse_def estraverse_traverse_def)
      have "stopped_last b (snd u')"
        by (rule walk_stopped_last [OF _ _ r]) (simp_all add: unstopped_def)
      then show ?thesis
        unfolding c ..
    qed
  qed
qed

text \<open>
  Claim C7: if the callback invokes the stop callback during some invocation, no
  return statement after that point is reported: that invocation is the last one of
  the call of \<^verbatim>\<open>traverseReturns\<close>. This holds for every node, every key table and every
  callback.
\<close>

theorem stop_ends_the_walk:
  assumes "i < length (calls VisitorKeys fn onReturn s)"
    and "snd (calls VisitorKeys fn onReturn s ! i)"
  shows "Suc i = length (calls VisitorKeys fn onReturn s)"
proof -
  let ?log = "calls VisitorKeys fn onReturn s"
  from assms have split: "?log = take i ?log @ (fst (?log ! i), True) # drop (Suc i) ?log"
    by (metis id_take_nth_drop prod.collapse)
  have "drop (Suc i) ?log = []"
    using calls_stopped_last [of VisitorKeys fn onReturn s] split
    by (blast intro: stopped_last_end)
  with assms(1) show ?thesis by simp
qed

text \<open>
  The theorem at \<^verbatim>\<open>function f(x) { if (x) return 1; return 2; }\<close> with a callback that
  stops at once: the first call is the only one.
\<close>

theorem stop_ends_the_walk_witness:
  "0 < length (calls estraverse_keys f_if stop_at_once ())
   \<and> snd (calls estraverse_keys f_if stop_at_once () ! 0)
   \<and> length (calls estraverse_keys f_if stop_at_once ()) = Suc 0"
proof -
  have c: "calls estraverse_keys f_if stop_at_once () ! 0 = (lit 1, True)"
    by code_simp
  have l: "0 < length (calls estraverse_keys f_if stop_at_once ())"
    by code_simp
  have s: "snd (calls estraverse_keys f_if stop_at_once () ! 0)"
    by (simp add: c)
  from stop_ends_the_walk [OF l s] l s show ?thesis by simp
qed

subsection \<open>Nodes the walk does not reach\<close>

text \<open>
  Claim C5 (the code does otherwise): for a \<^verbatim>\<open>MethodDefinition\<close> node the callback should
  be invoked for each return statement of the method's body. \<^verbatim>\<open>traverseReturns\<close> accepts
  the node type but walks \<^verbatim>\<open>ASTNode.body\<close>, which a method definition does not have (its
  function is \<^verbatim>\<open>ASTNode.value\<close>): the root of the walk is \<^verbatim>\<open>undefined\<close>, nothing is visited
  and the callback is never invoked, although the method's body has a return statement.
\<close>

theorem method_definition_not_walked:
  "field method_m ''body'' = JUndefined
   \<and> arguments (returns_outside_functions (field (field method_m ''value'') ''body'')) = [lit 1]
   \<and> calls VisitorKeys method_m onReturn s = []
   \<and> traverseReturns VisitorKeys method_m onReturn s = s"
  by (simp add: calls_def traverseReturns_def method_m_def traverse_def
      estraverse_traverse_def arguments_def function_types_def)

text \<open>
  Claim C6 (the code does otherwise): every loop statement should be walked into. The
  \<^verbatim>\<open>switch\<close> of \<^verbatim>\<open>enter\<close> lists \<^verbatim>\<open>ForStatement\<close> and \<^verbatim>\<open>WhileStatement\<close>; the loops
  \<^verbatim>\<open>DoWhileStatement\<close>, \<^verbatim>\<open>ForInStatement\<close> and \<^verbatim>\<open>ForOfStatement\<close> reach \<^verbatim>\<open>default\<close> and are
  skipped. For \<^verbatim>\<open>function f(c) { do { return 1; } while (c); }\<close> and
  \<^verbatim>\<open>function f(xs) { for (const x of xs) { return x; } }\<close> the callback is never invoked.
\<close>

theorem other_loops_not_walked:
  "calls estraverse_keys f_do_while onReturn s = []
   \<and> calls estraverse_keys f_for_of onReturn s = []"
  by (simp add: estraverse_keys_def calls_def traverseReturns_def f_do_while_def f_for_of_def
      function_declaration_def traverse_def estraverse_traverse_def
      walk.simps [of _ _ "JObj _"] returns_visitor_def traverse_opts_def returns_enter_def
      children_def candidates_def node_type_def do_while_statement_def for_of_statement_def
      field_children_def isNode_def)

subsection \<open>The key table \<^verbatim>\<open>traverse\<close> hands on\<close>

text \<open>
  Claim C10: in the options that \<^verbatim>\<open>traverse\<close> hands to the underlying traversal, the
  child keys of \<^verbatim>\<open>JSXElement\<close> and of \<^verbatim>\<open>JSXFragment\<close> are always \<^verbatim>\<open>['children']\<close>, whatever
  the visitor's own \<^verbatim>\<open>keys\<close> say for the two types (so these are the keys the walker
  uses for them, whatever its default table); for every other node type the entry is
  the visitor's own, unchanged (none when the visitor has no \<^verbatim>\<open>keys\<close> or no such entry).
\<close>

theorem jsx_keys_overwrite:
  "traverse VisitorKeys ASTnode visitor s
     = estraverse_traverse VisitorKeys ASTnode (traverse_opts visitor) s
   \<and> opts_keys (traverse_opts visitor) ''JSXElement'' = Some [''children'']
   \<and> opts_keys (traverse_opts visitor) ''JSXFragment'' = Some [''children'']
   \<and> (VisitorKeys ++ opts_keys (traverse_opts visitor)) ''JSXElement'' = Some [''children'']
   \<and> (VisitorKeys ++ opts_keys (traverse_opts visitor)) ''JSXFragment'' = Some [''children'']
   \<and> (\<forall>t. t \<noteq> ''JSXElement'' \<and> t \<noteq> ''JSXFragment'' \<longrightarrow>
          opts_keys (traverse_opts visitor) t
            = (case keys visitor of None \<Rightarrow> None | Some ks \<Rightarrow> ks t))"
  by (simp add: traverse_def traverse_opts_def map_add_def split: option.splits)

text \<open>
  The theorem at a visitor with entries of its own for \<^verbatim>\<open>JSXElement\<close> and for
  \<^verbatim>\<open>Program\<close>: the first is overwritten, the second kept.
\<close>

theorem jsx_keys_overwrite_witness:
  "keys keyed_visitor = Some [''JSXElement'' \<mapsto> [''openingElement''], ''Program'' \<mapsto> [''body'']]
   \<and> opts_keys (traverse_opts keyed_visitor) ''JSXElement'' = Some [''children'']
   \<and> opts_keys (traverse_opts keyed_visitor) ''Program'' = Some [''body'']
   \<and> opts_keys (traverse_opts keyed_visitor) ''Identifier'' = None"
proof -
  have k: "keys keyed_visitor
             = Some [''JSXElement'' \<mapsto> [''openingElement''], ''Program'' \<mapsto> [''body'']]"
    by (simp add: keyed_visitor_def)
  have p: "''Program'' \<noteq> ''JSXElement'' \<and> ''Program'' \<noteq> ''JSXFragment''"
    and i: "''Identifier'' \<noteq> ''JSXElement'' \<and> ''Identifier'' \<noteq> ''JSXFragment''"
    by simp_all
  note all = jsx_keys_overwrite [of undefined JNull keyed_visitor "()"]
  note others = all [THEN conjunct2, THEN conjunct2, THEN conjunct2, THEN conjunct2,
      THEN conjunct2, rule_format]
  have "opts_keys (traverse_opts keyed_visitor) ''JSXElement'' = Some [''children'']"
    by (rule all [THEN conjunct2, THEN conjunct1])
  moreover have "opts_keys (traverse_opts keyed_visitor) ''Program''
           = (case keys keyed_visitor of None \<Rightarrow> None | Some ks \<Rightarrow> ks ''Program'')"
    by (rule others [OF p])
  moreover have "opts_keys (traverse_opts keyed_visitor) ''Identifier''
           = (case keys keyed_visitor of None \<Rightarrow> None | Some ks \<Rightarrow> ks ''Identifier'')"
    by (rule others [OF i])
  ultimately show ?thesis
    by (simp add: k)
qed

section \<open>Properties of the rule \<^verbatim>\<open>dot-location\<close>\<close>

text \<open>
  Claim C2: with the option unset or set to \<^verbatim>\<open>"object"\<close>, for a non-computed
  \<^verbatim>\<open>MemberExpression\<close> whose dot token has a token before it, a violation
  \<^verbatim>\<open>expectedDotAfterObject\<close> is reported at the location of the dot token if and only if
  the token before the dot is not on the same line as the dot; when it is on the same
  line, nothing is reported.
\<close>

theorem dot_after_object_reported:
  assumes "options ctx = [] \<or> options ctx = [''object'']"
    and "me_type node = ''MemberExpression''"
    and "\<not> computed node"
    and "getTokenBefore (sourceCode ctx) (node_range (property node)) = Some dotToken"
    and "getTokenBefore (sourceCode ctx) (tok_range dotToken) = Some tokenBeforeDot"
  shows "report_heads (checkNode ctx node)
           = (if isTokenOnSameLine (tok_loc tokenBeforeDot) (tok_loc dotToken) then []
              else [(''expectedDotAfterObject'', tok_loc dotToken)])"
proof -
  from assms(1) have "onObject ctx"
    by (auto simp: onObject_def)
  with assms(2-5) show ?thesis
    by (simp add: checkNode_def checkDotLocation_def report_heads_def)
qed

text \<open>
  The theorem at \<^verbatim>\<open>foo\<close>, line break, \<^verbatim>\<open>.bar()\<close> with no option: one report, at the dot
  on line 2; and at \<^verbatim>\<open>foo.\<close>, line break, \<^verbatim>\<open>bar()\<close> with the option \<^verbatim>\<open>"object"\<close>: no report.
\<close>

theorem dot_after_object_reported_witness:
  "options (rule_with [] tokens_foo_dot_bar) = []
   \<and> me_type member_foo_dot_bar = ''MemberExpression''
   \<and> \<not> computed member_foo_dot_bar
   \<and> getTokenBefore (sourceCode (rule_with [] tokens_foo_dot_bar))
        (node_range (property member_foo_dot_bar)) = Some (mk_token ''Punctuator'' ''.'' 4 2 0)
   \<and> getTokenBefore (sourceCode (rule_with [] tokens_foo_dot_bar))
        (tok_range (mk_token ''Punctuator'' ''.'' 4 2 0)) = Some (mk_token ''Identifier'' ''foo'' 0 1 0)
   \<and> report_heads (checkNode (rule_with [] tokens_foo_dot_bar) member_foo_dot_bar)
        = [(''expectedDotAfterObject'', on_line 2 0 1)]
   \<and> options (rule_with [''object''] tokens_foo_bar) = [''object'']
   \<and> report_heads (checkNode (rule_with [''object''] tokens_foo_bar) member_foo_bar) = []"
proof -
  let ?ctx = "rule_with [] tokens_foo_dot_bar"
  let ?dot = "mk_token ''Punctuator'' ''.'' 4 2 0"
  let ?foo = "mk_token ''Identifier'' ''foo'' 0 1 0"
  have o: "options ?ctx = []"
    by (simp add: rule_with_def)
  have t: "me_type member_foo_dot_bar = ''MemberExpression''"
    and c: "\<not> computed member_foo_dot_bar"
    by (simp_all add: member_foo_dot_bar_def member_at_def)
  have d: "getTokenBefore (sourceCode ?ctx) (node_range (property member_foo_dot_bar)) = Some ?dot"
    by (simp add: rule_with_def tokens_foo_dot_bar_def member_foo_dot_bar_def member_at_def
        getTokenBefore_def mk_token_def)
  have b: "getTokenBefore (sourceCode ?ctx) (tok_range ?dot) = Some ?foo"
    by (simp add: rule_with_def tokens_foo_dot_bar_def getTokenBefore_def mk_token_def)
  have r: "report_heads (checkNode ?ctx member_foo_dot_bar)
             = [(''expectedDotAfterObject'', on_line 2 0 1)]"
    using dot_after_object_reported [OF disjI1 [OF o] t c d b]
    by (simp add: isTokenOnSameLine_def mk_token_def on_line_def)
  let ?ctx2 = "rule_with [''object''] tokens_foo_bar"
  let ?dot2 = "mk_token ''Punctuator'' ''.'' 3 1 3"
  have o2: "options ?ctx2 = [''object'']"
    by (simp add: rule_with_def)
  have t2: "me_type member_foo_bar = ''MemberExpression''"
    and c2: "\<not> computed member_foo_bar"
    by (simp_all add: member_foo_bar_def member_at_def)
  have d2: "getTokenBefore (sourceCode ?ctx2) (node_range (property member_foo_bar)) = Some ?dot2"
    by (simp add: rule_with_def tokens_foo_bar_def member_foo_bar_def member_at_def
        getTokenBefore_def mk_token_def)
  have b2: "getTokenBefore (sourceCode ?ctx2) (tok_range ?dot2) = Some ?foo"
    by (simp add: rule_with_def tokens_foo_bar_def getTokenBefore_def mk_token_def)
  have r2: "report_heads (checkNode ?ctx2 member_foo_bar) = []"
    using dot_after_object_reported [OF disjI2 [OF o2] t2 c2 d2 b2]
    by (simp add: isTokenOnSameLine_def mk_token_def on_line_def)
  from o t c d b r o2 r2 show ?thesis by simp
qed




text \<open>
  Claim C4: with \<^verbatim>\<open>onObject\<close> false, for a non-computed \<^verbatim>\<open>MemberExpression\<close> a violation
  \<^verbatim>\<open>expectedDotBeforeProperty\<close> is reported at the location of the dot token if and only
  if the dot token exists and is not on the same line as the property; its fix is
  exactly two edits: remove the dot token, and insert the dot token's text immediately
  before the property.
\<close>

theorem dot_before_property:
  assumes "\<not> onObject ctx"
    and "me_type node = ''MemberExpression''"
    and "\<not> computed node"
  shows "checkNode ctx node
           = (case getTokenBefore (sourceCode ctx) (node_range (property node)) of
                None \<Rightarrow> []
              | Some dotToken \<Rightarrow>
                  if isTokenOnSameLine (tok_loc dotToken) (node_loc (property node)) then []
                  else [\<lparr> rep_node = node, rep_loc = tok_loc dotToken,
                          messageId = ''expectedDotBeforeProperty'',
                          rep_fix =
                            [Remove (tok_range dotToken),
                             InsertTextBefore (node_range (property node))
                               (tok_value dotToken)] \<rparr>])"
  using assms
  by (simp add: checkNode_def checkDotLocation_def split: option.splits)

text \<open>
  The theorem at \<^verbatim>\<open>foo.\<close>, line break, \<^verbatim>\<open>bar()\<close> with the option \<^verbatim>\<open>"property"\<close>: one
  report, whose fix gives \<^verbatim>\<open>foo\<close>, line break, \<^verbatim>\<open>.bar()\<close>; and at the latter text, where the
  dot is on the line of the property already: no report.
\<close>

theorem dot_before_property_witness:
  "\<not> onObject (rule_with [''property''] tokens_foo_bar)
   \<and> me_type member_foo_bar = ''MemberExpression''
   \<and> \<not> computed member_foo_bar
   \<and> checkNode (rule_with [''property''] tokens_foo_bar) member_foo_bar
       = [\<lparr> rep_node = member_foo_bar, rep_loc = on_line 1 3 4,
             messageId = ''expectedDotBeforeProperty'',
             rep_fix = [Remove (3, 4), InsertTextBefore (5, 8) ''.''] \<rparr>]
   \<and> fixed_texts (rule_with [''property''] tokens_foo_bar) member_foo_bar source_foo_bar
       = [''foo'' @ newline @ ''.bar()'']
   \<and> \<not> onObject (rule_with [''property''] tokens_foo_dot_bar)
   \<and> checkNode (rule_with [''property''] tokens_foo_dot_bar) member_foo_dot_bar = []"
proof -
  let ?ctx = "rule_with [''property''] tokens_foo_bar"
  have o: "\<not> onObject ?ctx"
    by (simp add: onObject_def rule_with_def)
  have t: "me_type member_foo_bar = ''MemberExpression''"
    and c: "\<not> computed member_foo_bar"
    by (simp_all add: member_foo_bar_def member_at_def)
  have d: "getTokenBefore (sourceCode ?ctx) (node_range (property member_foo_bar))
             = Some (mk_token ''Punctuator'' ''.'' 3 1 3)"
    by (simp add: rule_with_def tokens_foo_bar_def member_foo_bar_def member_at_def
        getTokenBefore_def mk_token_def)
  have r: "checkNode ?ctx member_foo_bar
       = [\<lparr> rep_node = member_foo_bar, rep_loc = on_line 1 3 4,
             messageId = ''expectedDotBeforeProperty'',
             rep_fix = [Remove (3, 4), InsertTextBefore (5, 8) ''.''] \<rparr>]"
    unfolding dot_before_property [OF o t c] d
    by (simp add: isTokenOnSameLine_def mk_token_def on_line_def member_foo_bar_def
        member_at_def)
  have x: "fixed_texts ?ctx member_foo_bar source_foo_bar = [''foo'' @ newline @ ''.bar()'']"
    unfolding fixed_texts_def r
    by (simp add: apply_fix_def source_foo_bar_def newline_def)
  let ?ctx2 = "rule_with [''property''] tokens_foo_dot_bar"
  have o2: "\<not> onObject ?ctx2"
    by (simp add: onObject_def rule_with_def)
  have t2: "me_type member_foo_dot_bar = ''MemberExpression''"
    and c2: "\<not> computed member_foo_dot_bar"
    by (simp_all add: member_foo_dot_bar_def member_at_def)
  have d2: "getTokenBefore (sourceCode ?ctx2) (node_range (property member_foo_dot_bar))
             = Some (mk_token ''Punctuator'' ''.'' 4 2 0)"
    by (simp add: rule_with_def tokens_foo_dot_bar_def member_foo_dot_bar_def member_at_def
        getTokenBefore_def mk_token_def)
  have r2: "checkNode ?ctx2 member_foo_dot_bar = []"
    unfolding dot_before_property [OF o2 t2 c2] d2
    by (simp add: isTokenOnSameLine_def mk_token_def on_line_def member_foo_dot_bar_def
        member_at_def)
  from o t c r x o2 r2 show ?thesis by simp
qed

text \<open>
  Claim C8: for a node that is computed (the bracket form) or whose type is not
  \<^verbatim>\<open>MemberExpression\<close>, nothing is reported and so no fix is computed, whatever the option.
\<close>

theorem computed_member_ignored:
  assumes "computed node \<or> me_type node \<noteq> ''MemberExpression''"
  shows "checkNode ctx node = []"
  using assms by (auto simp: checkNode_def)

text \<open>
  The theorem at \<^verbatim>\<open>obj\<close>, line break, \<^verbatim>\<open>[prop]\<close> under both options, and at a node of
  another type.
\<close>

theorem computed_member_ignored_witness:
  "computed member_computed
   \<and> checkNode (rule_with [''object''] tokens_computed) member_computed = []
   \<and> checkNode (rule_with [''property''] tokens_computed) member_computed = []
   \<and> me_type (member_computed \<lparr> me_type := ''CallExpression'', computed := False \<rparr>)
        \<noteq> ''MemberExpression''
   \<and> checkNode (rule_with [] tokens_computed)
        (member_computed \<lparr> me_type := ''CallExpression'', computed := False \<rparr>) = []"
proof -
  have c: "computed member_computed"
    by (simp add: member_computed_def member_at_def)
  have t: "me_type (member_computed \<lparr> me_type := ''CallExpression'', computed := False \<rparr>)
        \<noteq> ''MemberExpression''"
    by simp
  from c t computed_member_ignored [OF disjI1 [OF c]] computed_member_ignored [OF disjI2 [OF t]]
  show ?thesis by simp
qed

section \<open>Properties of \<^verbatim>\<open>getFirstNodeInLine\<close>\<close>

text \<open>
  Claim C9 (the code does otherwise): \<^verbatim>\<open>getFirstNodeInLine\<close> and \<^verbatim>\<open>isNodeFirstInLine\<close>
  should return without throwing also for a node at the start of the token stream.
  The walk backwards does end for every node (the function above is total), but for
  the first node of a file \<^verbatim>\<open>getTokenBefore\<close> returns \<^verbatim>\<open>null\<close> and the next read,
  \<^verbatim>\<open>token.type\<close>, raises a \<^verbatim>\<open>TypeError\<close>, which \<^verbatim>\<open>isNodeFirstInLine\<close> passes on: its own
  test \<^verbatim>\<open>token ? ... : -1\<close> for a missing token is never reached.
\<close>

theorem first_node_has_no_token_before:
  "getTokenBefore tokens_jsx (node_range jsx_element) = None
   \<and> getFirstNodeInLine tokens_jsx (node_range jsx_element) = Inl TypeError
   \<and> isNodeFirstInLine tokens_jsx jsx_element = Inl TypeError"
  by (simp add: isNodeFirstInLine_def getFirstNodeInLine.simps getTokenBefore_def
      tokens_jsx_def jsx_element_def mk_token_def)

end
